theory Spec2Isabelle
  imports Main
begin

section \<open>Live vehicle tracking: connection manager and location channel\<close>

text \<open>
  The development embeds \<^verbatim>\<open>src/tracking.py\<close>: the class \<^verbatim>\<open>ConnectionManager\<close>
  (\<^verbatim>\<open>connect\<close>, \<^verbatim>\<open>disconnect\<close>, \<^verbatim>\<open>broadcast\<close>), the module-level cache
  \<^verbatim>\<open>vehicle_locations\<close> and the coroutine \<^verbatim>\<open>websocket_location\<close>.

  The handlers are coroutines on one event loop. \<open>broadcast\<close> and \<open>receive_loop\<close>
  describe a handler during whose sends no other handler touches the manager;
  \<open>broadcast_live\<close> and \<open>receive_loop_live\<close> take, for every
  \<^verbatim>\<open>await connection.send_text\<close>, the manager calls that other handlers make while
  that send is pending, and iterate over the list object as it is at each step. Console
  output (\<^verbatim>\<open>print\<close>) is not recorded. Exceptions are the subclasses of Python's
  \<^verbatim>\<open>Exception\<close>; task cancellation and interpreter exit are not modelled.
\<close>

subsection \<open>Data\<close>

type_synonym vehicle_id = int

text \<open>
  A \<^verbatim>\<open>WebSocket\<close> object is compared by identity (\<^verbatim>\<open>in\<close> and \<^verbatim>\<open>list.remove\<close> use
  \<^verbatim>\<open>==\<close>, which for these objects is identity), so a socket is its identity.
\<close>

type_synonym websocket = nat

text \<open>\<^verbatim>\<open>active_connections: Dict[int, List[WebSocket]]\<close>\<close>

type_synonym registry = "vehicle_id \<rightharpoonup> websocket list"

datatype exn = KeyError | ValueError | WebSocketDisconnect | JSONDecodeError | RuntimeError

text \<open>The Python primitives the manager uses, with the exceptions they raise.\<close>

definition dict_getitem :: "('k \<rightharpoonup> 'v) \<Rightarrow> 'k \<Rightarrow> exn + 'v" where
  "dict_getitem d k = (case d k of None \<Rightarrow> Inl KeyError | Some x \<Rightarrow> Inr x)"

definition dict_delitem :: "('k \<rightharpoonup> 'v) \<Rightarrow> 'k \<Rightarrow> exn + ('k \<rightharpoonup> 'v)" where
  "dict_delitem d k = (case d k of None \<Rightarrow> Inl KeyError | Some x \<Rightarrow> Inr (d(k := None)))"

definition list_remove :: "'a list \<Rightarrow> 'a \<Rightarrow> exn + 'a list" where
  "list_remove xs x = (if x \<in> set xs then Inr (remove1 x xs) else Inl ValueError)"

text \<open>The list stored under a key, empty when the key is absent (\<^verbatim>\<open>d.get(k, [])\<close>).\<close>

definition connections_of :: "registry \<Rightarrow> vehicle_id \<Rightarrow> websocket list" where
  "connections_of ac v = (case ac v of None \<Rightarrow> [] | Some xs \<Rightarrow> xs)"

subsection \<open>ConnectionManager.connect and ConnectionManager.disconnect\<close>

text \<open>
  \<^verbatim>\<open>await websocket.accept()\<close> is the framework's handshake: its outcome is an input,
  \<open>None\<close> when it returns and \<open>Some e\<close> when it raises \<open>e\<close> (before the registry is
  touched).
\<close>

definition connect :: "exn option \<Rightarrow> websocket \<Rightarrow> vehicle_id \<Rightarrow> registry \<Rightarrow> exn + registry" where
  "connect accept websocket vehicle_id ac =
     (case accept of
        Some e \<Rightarrow> Inl e
      | None \<Rightarrow>
          (let ac1 = (if ac vehicle_id = None then ac(vehicle_id \<mapsto> []) else ac)
           in case dict_getitem ac1 vehicle_id of
                Inl e \<Rightarrow> Inl e
              | Inr xs \<Rightarrow> Inr (ac1(vehicle_id \<mapsto> xs @ [websocket]))))"

definition disconnect :: "websocket \<Rightarrow> vehicle_id \<Rightarrow> registry \<Rightarrow> exn + registry" where
  "disconnect websocket vehicle_id ac =
     (if ac vehicle_id \<noteq> None then
        (case dict_getitem ac vehicle_id of
           Inl e \<Rightarrow> Inl e
         | Inr xs \<Rightarrow>
             (case (if websocket \<in> set xs then list_remove xs websocket else Inr xs) of
                Inl e \<Rightarrow> Inl e
              | Inr ys \<Rightarrow>
                  (if ys = [] then dict_delitem (ac(vehicle_id \<mapsto> ys)) vehicle_id
                   else Inr (ac(vehicle_id \<mapsto> ys)))))
      else Inr ac)"

subsection \<open>Server state and environment\<close>

text \<open>
  The server's state: the manager's dictionary, the cache \<^verbatim>\<open>vehicle_locations\<close>, and the
  record of every \<^verbatim>\<open>send_text\<close> call made so far, oldest first: the socket, the text and
  whether the call returned (\<open>True\<close>) or raised (\<open>False\<close>).
\<close>

record 'j server =
  active_connections :: registry
  vehicle_locations :: "vehicle_id \<rightharpoonup> 'j"
  sent :: "(websocket \<times> string \<times> bool) list"

text \<open>
  What the program does not define: \<^verbatim>\<open>json.loads\<close> (\<open>None\<close> when it raises
  \<^verbatim>\<open>JSONDecodeError\<close>), \<^verbatim>\<open>json.dumps\<close>, and for each socket whether
  \<^verbatim>\<open>send_text\<close> on it raises.
\<close>

record 'j env =
  json_loads :: "string \<Rightarrow> 'j option"
  json_dumps :: "'j \<Rightarrow> string"
  send_raises :: "websocket \<Rightarrow> exn option"

definition send_text :: "'j env \<Rightarrow> websocket \<Rightarrow> string \<Rightarrow> 'j server \<Rightarrow> (exn + unit) \<times> 'j server" where
  "send_text env connection message s =
     (case send_raises env connection of
        Some e \<Rightarrow> (Inl e, s\<lparr>sent := sent s @ [(connection, message, False)]\<rparr>)
      | None \<Rightarrow> (Inr (), s\<lparr>sent := sent s @ [(connection, message, True)]\<rparr>))"

subsection \<open>ConnectionManager.broadcast\<close>

text \<open>The \<^verbatim>\<open>for\<close> loop with its \<^verbatim>\<open>try\<close>/\<^verbatim>\<open>except Exception\<close> around each send.\<close>

fun broadcast_loop :: "'j env \<Rightarrow> string \<Rightarrow> websocket list \<Rightarrow> 'j server \<Rightarrow> (exn + unit) \<times> 'j server" where
  "broadcast_loop env message [] s = (Inr (), s)"
| "broadcast_loop env message (connection # rest) s =
     (case send_text env connection message s of
        (Inl e, s') \<Rightarrow> broadcast_loop env message rest s'
      | (Inr u, s') \<Rightarrow> broadcast_loop env message rest s')"

definition broadcast :: "'j env \<Rightarrow> vehicle_id \<Rightarrow> string \<Rightarrow> 'j server \<Rightarrow> (exn + unit) \<times> 'j server" where
  "broadcast env vehicle_id message s =
     (if active_connections s vehicle_id \<noteq> None then
        (case dict_getitem (active_connections s) vehicle_id of
           Inl e \<Rightarrow> (Inl e, s)
         | Inr connections \<Rightarrow> broadcast_loop env message connections s)
      else (Inr (), s))"

subsection \<open>websocket_location\<close>

text \<open>
  What \<^verbatim>\<open>await websocket.receive_text()\<close> yields: a text frame, \<^verbatim>\<open>WebSocketDisconnect\<close>
  when the peer closes, or another exception on a read error.
\<close>

datatype event = Text string | PeerClose | ReadError

definition receive_text :: "event \<Rightarrow> exn + string" where
  "receive_text ev =
     (case ev of Text d \<Rightarrow> Inr d | PeerClose \<Rightarrow> Inl WebSocketDisconnect | ReadError \<Rightarrow> Inl RuntimeError)"

text \<open>
  Where the coroutine is after the events it was given: suspended in
  \<^verbatim>\<open>receive_text\<close> inside the loop, returned, or left by an exception.
\<close>

datatype status = Receiving | Returned | Raised exn

text \<open>
  Both \<^verbatim>\<open>except\<close> clauses of the handler call \<^verbatim>\<open>manager.disconnect\<close> and fall off the
  end of the function.
\<close>

definition except_clause :: "websocket \<Rightarrow> vehicle_id \<Rightarrow> 'j server \<Rightarrow> status \<times> 'j server" where
  "except_clause websocket vehicle_id s =
     (case disconnect websocket vehicle_id (active_connections s) of
        Inl e \<Rightarrow> (Raised e, s)
      | Inr ac \<Rightarrow> (Returned, s\<lparr>active_connections := ac\<rparr>))"

fun receive_loop :: "'j env \<Rightarrow> websocket \<Rightarrow> vehicle_id \<Rightarrow> event list \<Rightarrow> 'j server \<Rightarrow> status \<times> 'j server" where
  "receive_loop env websocket vehicle_id [] s = (Receiving, s)"
| "receive_loop env websocket vehicle_id (ev # evs) s =
     (case receive_text ev of
        Inl e \<Rightarrow> except_clause websocket vehicle_id s
      | Inr data \<Rightarrow>
          (case json_loads env data of
             None \<Rightarrow> except_clause websocket vehicle_id s
           | Some location \<Rightarrow>
               (case broadcast env vehicle_id (json_dumps env location)
                       (s\<lparr>vehicle_locations := (vehicle_locations s)(vehicle_id \<mapsto> location)\<rparr>) of
                  (Inl e, s') \<Rightarrow> except_clause websocket vehicle_id s'
                | (Inr u, s') \<Rightarrow> receive_loop env websocket vehicle_id evs s')))"

definition websocket_location ::
  "'j env \<Rightarrow> exn option \<Rightarrow> websocket \<Rightarrow> vehicle_id \<Rightarrow> event list \<Rightarrow> 'j server \<Rightarrow> status \<times> 'j server" where
  "websocket_location env accept websocket vehicle_id evs s =
     (case connect accept websocket vehicle_id (active_connections s) of
        Inl e \<Rightarrow> (Raised e, s)
      | Inr ac \<Rightarrow> receive_loop env websocket vehicle_id evs (s\<lparr>active_connections := ac\<rparr>))"

text \<open>An event on which the loop is left: anything but a text that parses.\<close>

definition ends_loop :: "'j env \<Rightarrow> event \<Rightarrow> bool" where
  "ends_loop env ev = (case ev of Text d \<Rightarrow> json_loads env d = None | PeerClose \<Rightarrow> True | ReadError \<Rightarrow> True)"

subsection \<open>Sequences of manager calls\<close>

datatype call = Connect "exn option" websocket vehicle_id | Disconnect websocket vehicle_id

text \<open>A call that raises leaves the dictionary as it was.\<close>

fun apply_call :: "registry \<Rightarrow> call \<Rightarrow> registry" where
  "apply_call ac (Connect accept websocket vehicle_id) =
     (case connect accept websocket vehicle_id ac of Inl e \<Rightarrow> ac | Inr ac' \<Rightarrow> ac')"
| "apply_call ac (Disconnect websocket vehicle_id) =
     (case disconnect websocket vehicle_id ac of Inl e \<Rightarrow> ac | Inr ac' \<Rightarrow> ac')"

definition run_calls :: "call list \<Rightarrow> registry" where
  "run_calls calls = foldl apply_call Map.empty calls"

subsection \<open>Broadcasting while other handlers run\<close>

text \<open>
  \<^verbatim>\<open>for connection in self.active_connections[vehicle_id]\<close> takes an iterator on the list
  object stored under the key: an index into a list that \<open>connect\<close> and \<open>disconnect\<close>
  of other handlers go on mutating whenever the loop is suspended in
  \<^verbatim>\<open>await connection.send_text(message)\<close>. Each step reads the element at the index
  from the list as it is then, and the loop ends when the index has reached the length.

  When \<open>disconnect\<close> deletes the key, the list object is empty and no longer the one the
  manager uses (a later \<open>connect\<close> makes a new list): \<open>attached\<close> records whether the
  iterated object is still the one under the key.
\<close>

fun interfere :: "vehicle_id \<Rightarrow> call list \<Rightarrow> registry \<times> bool \<Rightarrow> registry \<times> bool" where
  "interfere vehicle_id [] (ac, attached) = (ac, attached)"
| "interfere vehicle_id (c # cs) (ac, attached) =
     (let ac' = apply_call ac c
      in interfere vehicle_id cs (ac', attached \<and> ac' vehicle_id \<noteq> None))"

definition iterated :: "bool \<Rightarrow> vehicle_id \<Rightarrow> registry \<Rightarrow> websocket list" where
  "iterated attached vehicle_id ac = (if attached then connections_of ac vehicle_id else [])"

text \<open>
  The schedule holds, for each send in turn, the calls made during it; when it is used up
  the remaining sends are undisturbed, which is \<open>broadcast_loop\<close> on the rest of the list.
\<close>

fun broadcast_live_loop ::
  "'j env \<Rightarrow> vehicle_id \<Rightarrow> string \<Rightarrow> call list list \<Rightarrow> nat \<Rightarrow> bool \<Rightarrow> 'j server
     \<Rightarrow> (exn + unit) \<times> 'j server" where
  "broadcast_live_loop env vehicle_id message [] i attached s =
     broadcast_loop env message (drop i (iterated attached vehicle_id (active_connections s))) s"
| "broadcast_live_loop env vehicle_id message (during # later) i attached s =
     (let connections = iterated attached vehicle_id (active_connections s)
      in if i < length connections then
           (case send_text env (connections ! i) message s of
              (Inl e, s') \<Rightarrow>
                (case interfere vehicle_id during (active_connections s', attached) of
                   (ac, attached') \<Rightarrow>
                     broadcast_live_loop env vehicle_id message later (Suc i) attached'
                       (s'\<lparr>active_connections := ac\<rparr>))
            | (Inr u, s') \<Rightarrow>
                (case interfere vehicle_id during (active_connections s', attached) of
                   (ac, attached') \<Rightarrow>
                     broadcast_live_loop env vehicle_id message later (Suc i) attached'
                       (s'\<lparr>active_connections := ac\<rparr>)))
         else (Inr (), s))"

definition broadcast_live ::
  "'j env \<Rightarrow> vehicle_id \<Rightarrow> string \<Rightarrow> call list list \<Rightarrow> 'j server \<Rightarrow> (exn + unit) \<times> 'j server" where
  "broadcast_live env vehicle_id message schedule s =
     (if active_connections s vehicle_id \<noteq> None then
        (case dict_getitem (active_connections s) vehicle_id of
           Inl e \<Rightarrow> (Inl e, s)
         | Inr connections \<Rightarrow> broadcast_live_loop env vehicle_id message schedule 0 True s)
      else (Inr (), s))"

fun receive_loop_live ::
  "'j env \<Rightarrow> websocket \<Rightarrow> vehicle_id \<Rightarrow> (event \<times> call list list) list \<Rightarrow> 'j server
     \<Rightarrow> status \<times> 'j server" where
  "receive_loop_live env websocket vehicle_id [] s = (Receiving, s)"
| "receive_loop_live env websocket vehicle_id ((ev, schedule) # evs) s =
     (case receive_text ev of
        Inl e \<Rightarrow> except_clause websocket vehicle_id s
      | Inr data \<Rightarrow>
          (case json_loads env data of
             None \<Rightarrow> except_clause websocket vehicle_id s
           | Some location \<Rightarrow>
               (case broadcast_live env vehicle_id (json_dumps env location) schedule
                       (s\<lparr>vehicle_locations := (vehicle_locations s)(vehicle_id \<mapsto> location)\<rparr>) of
                  (Inl e, s') \<Rightarrow> except_clause websocket vehicle_id s'
                | (Inr u, s') \<Rightarrow> receive_loop_live env websocket vehicle_id evs s')))"

subsection \<open>A concrete environment for closed examples\<close>

text \<open>
  \<^verbatim>\<open>json.loads\<close> and \<^verbatim>\<open>json.dumps\<close> at the two texts of the examples: the position
  document, which parses to an object of two numbers, and \<^verbatim>\<open>not-json\<close>, on which
  \<^verbatim>\<open>json.loads\<close> raises. An object is the list of its fields, a number its literal.
\<close>

type_synonym json = "(string \<times> string) list"

definition position_text :: string where
  \<open>position_text = ''{"lat":13.08,"lng":80.27}''\<close>

definition position :: json where
  "position = [(''lat'', ''13.08''), (''lng'', ''80.27'')]"

fun dump_fields :: "json \<Rightarrow> string" where
  "dump_fields [] = ''''"
| "dump_fields [(k, x)] = [CHR 0x22] @ k @ [CHR 0x22] @ '': '' @ x"
| "dump_fields ((k, x) # rest) = [CHR 0x22] @ k @ [CHR 0x22] @ '': '' @ x @ '', '' @ dump_fields rest"

definition example_env :: "websocket list \<Rightarrow> json env" where
  "example_env dead =
     \<lparr>json_loads = (\<lambda>t. if t = position_text then Some position else None),
      json_dumps = (\<lambda>j. ''{'' @ dump_fields j @ ''}''),
      send_raises = (\<lambda>c. if c \<in> set dead then Some RuntimeError else None)\<rparr>"

definition idle :: "json server" where
  "idle = \<lparr>active_connections = Map.empty, vehicle_locations = Map.empty, sent = []\<rparr>"


definition position_dump :: string where
  \<open>position_dump = ''{"lat": 13.08, "lng": 80.27}''\<close>

subsection \<open>Auxiliary notions\<close>

text \<open>The dictionary that \<open>disconnect\<close> leaves behind, in closed form.\<close>

definition deregistered :: "websocket \<Rightarrow> vehicle_id \<Rightarrow> registry \<Rightarrow> registry" where
  "deregistered ws v ac =
     (case ac v of None \<Rightarrow> ac
      | Some xs \<Rightarrow> if remove1 ws xs = [] then ac(v := None) else ac(v \<mapsto> remove1 ws xs))"

text \<open>No key of the dictionary holds an empty list.\<close>

definition no_empty_entry :: "registry \<Rightarrow> bool" where
  "no_empty_entry ac = (\<forall>v. ac v \<noteq> Some [])"

text \<open>
  The dictionaries the server can be in: no empty list, no socket twice in a list, no
  socket under two vehicle ids.
\<close>

definition well_formed :: "registry \<Rightarrow> bool" where
  "well_formed ac =
     (\<forall>v. ac v \<noteq> Some [] \<and> distinct (connections_of ac v)
          \<and> (\<forall>w. v \<noteq> w \<longrightarrow> set (connections_of ac v) \<inter> set (connections_of ac w) = {}))"

text \<open>
  \<open>websocket_location\<close> is the only caller of \<open>connect\<close>, once per handler and with the
  socket the framework made for that handler: in a sequence of manager calls no socket is
  connected a second time.
\<close>

fun fresh_sockets :: "websocket list \<Rightarrow> call list \<Rightarrow> bool" where
  "fresh_sockets seen [] = True"
| "fresh_sockets seen (Connect accept websocket vehicle_id # cs) =
     (websocket \<notin> set seen \<and> fresh_sockets (websocket # seen) cs)"
| "fresh_sockets seen (Disconnect websocket vehicle_id # cs) = fresh_sockets seen cs"

text \<open>The steps of the receive loops are unfolded by the lemmas on them, not by the simplifier.\<close>

declare receive_loop.simps(2) [simp del]

declare receive_loop_live.simps(2) [simp del]

section \<open>The manager's methods in closed form\<close>

text \<open>
  None of the guarded dictionary and list operations of \<open>disconnect\<close> can raise, and
  \<open>connect\<close> raises only what the handshake raises.
\<close>

lemma disconnect_Inr:
  "disconnect ws v ac =
     Inr (case ac v of None \<Rightarrow> ac
          | Some xs \<Rightarrow> if remove1 ws xs = [] then ac(v := None) else ac(v \<mapsto> remove1 ws xs))"
  by (auto simp: disconnect_def dict_getitem_def dict_delitem_def list_remove_def remove1_idem
           split: option.splits)

lemma connect_Inr:
  "connect None ws v ac = Inr (ac(v \<mapsto> connections_of ac v @ [ws]))"
  by (auto simp: connect_def dict_getitem_def connections_of_def Let_def split: option.splits)

lemma connect_Inl: "connect (Some e) ws v ac = Inl e"
  by (simp add: connect_def)

text \<open>A broadcast attempts every socket of the list, in order, and returns normally.\<close>

lemma broadcast_loop_eq:
  "broadcast_loop env m cs s =
     (Inr (), s\<lparr>sent := sent s @ map (\<lambda>c. (c, m, send_raises env c = None)) cs\<rparr>)"
  by (induction cs arbitrary: s) (auto simp: send_text_def split: option.splits)

lemma broadcast_eq:
  "broadcast env v m s =
     (Inr (), s\<lparr>sent := sent s @ map (\<lambda>c. (c, m, send_raises env c = None))
                                      (connections_of (active_connections s) v)\<rparr>)"
  by (auto simp: broadcast_def broadcast_loop_eq dict_getitem_def connections_of_def
           split: option.splits)

lemma except_clause_eq:
  "except_clause ws v s =
     (Returned, s\<lparr>active_connections :=
        (case active_connections s v of None \<Rightarrow> active_connections s
          | Some xs \<Rightarrow> if remove1 ws xs = [] then (active_connections s)(v := None)
                       else (active_connections s)(v \<mapsto> remove1 ws xs))\<rparr>)"
  by (simp add: except_clause_def disconnect_Inr)

text \<open>With nothing happening during the sends, the live loop is \<open>broadcast\<close>.\<close>

lemma broadcast_live_quiet: "broadcast_live env v m [] s = broadcast env v m s"
  by (simp add: broadcast_live_def broadcast_def iterated_def connections_of_def dict_getitem_def
           split: option.splits)

section \<open>The receive loop, one message at a time\<close>

lemma receive_loop_Text_Some:
  "json_loads env data = Some location \<Longrightarrow>
   receive_loop env ws v (Text data # evs) s =
     receive_loop env ws v evs
       (s\<lparr>vehicle_locations := (vehicle_locations s)(v \<mapsto> location),
          sent := sent s @ map (\<lambda>c. (c, json_dumps env location, send_raises env c = None))
                              (connections_of (active_connections s) v)\<rparr>)"
  by (simp add: receive_loop.simps(2) receive_text_def broadcast_eq)

lemma receive_loop_Text_None:
  "json_loads env data = None \<Longrightarrow>
   receive_loop env ws v (Text data # evs) s = except_clause ws v s"
  by (simp add: receive_loop.simps(2) receive_text_def)

lemma receive_loop_ends:
  "ends_loop env ev \<Longrightarrow> receive_loop env ws v (ev # evs) s = except_clause ws v s"
  by (cases ev) (simp_all add: receive_loop.simps(2) ends_loop_def receive_text_def)

lemma not_ends_loop: "\<not> ends_loop env ev \<Longrightarrow> \<exists>d j. ev = Text d \<and> json_loads env d = Some j"
  by (cases ev) (auto simp: ends_loop_def)

lemma receive_loop_exit:
  "\<exists>ev\<in>set evs. ends_loop env ev \<Longrightarrow>
   fst (receive_loop env ws v evs s) = Returned
   \<and> active_connections (snd (receive_loop env ws v evs s)) = deregistered ws v (active_connections s)"
proof (induction evs arbitrary: s)
  case Nil
  then show ?case by simp
next
  case (Cons ev evs)
  show ?case
  proof (cases "ends_loop env ev")
    case True
    then show ?thesis
      by (simp add: receive_loop_ends except_clause_eq deregistered_def)
  next
    case False
    then obtain d j where ev: "ev = Text d" "json_loads env d = Some j"
      using not_ends_loop by blast
    from False Cons.prems have rest: "\<exists>ev\<in>set evs. ends_loop env ev" by auto
    show ?thesis
      unfolding ev(1) receive_loop_Text_Some [OF ev(2)]
      using Cons.IH [OF rest] by simp
  qed
qed

lemma receive_loop_live_quiet:
  "receive_loop_live env ws v (map (\<lambda>ev. (ev, [])) evs) s = receive_loop env ws v evs s"
  by (induction evs arbitrary: s)
     (auto simp: receive_loop_live.simps(2) receive_loop.simps(2) broadcast_live_quiet
           split: sum.splits option.splits prod.splits)

lemma remove1_once: "count_list xs x \<le> 1 \<Longrightarrow> x \<notin> set (remove1 x xs)"
  by (induction xs) (auto simp: count_list_0_iff split: if_splits)

lemma deregistered_absent:
  "count_list (connections_of ac v) ws \<le> 1 \<Longrightarrow> ws \<notin> set (connections_of (deregistered ws v ac) v)"
proof (cases "ac v")
  case None
  then show ?thesis by (simp add: deregistered_def connections_of_def)
next
  case (Some xs)
  assume "count_list (connections_of ac v) ws \<le> 1"
  with Some have "ws \<notin> set (remove1 ws xs)"
    by (simp add: connections_of_def remove1_once)
  with Some show ?thesis by (simp add: deregistered_def connections_of_def)
qed

section \<open>The registry invariant\<close>

lemma no_empty_entry_apply_call: "no_empty_entry ac \<Longrightarrow> no_empty_entry (apply_call ac c)"
  by (cases c; cases "case c of Connect a w v \<Rightarrow> a | _ \<Rightarrow> None")
     (auto simp: no_empty_entry_def connect_Inr connect_Inl disconnect_Inr split: option.splits)

lemma no_empty_entry_foldl: "no_empty_entry ac \<Longrightarrow> no_empty_entry (foldl apply_call ac calls)"
  by (induction calls arbitrary: ac) (simp_all add: no_empty_entry_apply_call)

lemma no_empty_entry_run_calls: "no_empty_entry (run_calls calls)"
  unfolding run_calls_def by (rule no_empty_entry_foldl) (simp add: no_empty_entry_def)

text \<open>
  The dictionaries the handlers build are well formed: the empty one is, \<open>connect\<close> of a
  socket that is in no list keeps it so, and so does every \<open>disconnect\<close>.
\<close>

lemma well_formed_empty: "well_formed Map.empty"
  by (simp add: well_formed_def connections_of_def)

lemma connections_of_upd:
  "connections_of (ac(v \<mapsto> xs)) u = (if u = v then xs else connections_of ac u)"
  by (simp add: connections_of_def)

lemma connections_of_del:
  "connections_of (ac(v := None)) u = (if u = v then [] else connections_of ac u)"
  by (simp add: connections_of_def)

lemma connections_of_deregistered:
  "connections_of (deregistered ws v ac) u =
     (if u = v then remove1 ws (connections_of ac v) else connections_of ac u)"
  by (cases "ac v") (simp_all add: deregistered_def connections_of_def)

lemma deregistered_no_empty: "ac u \<noteq> Some [] \<Longrightarrow> deregistered ws v ac u \<noteq> Some []"
  by (cases "ac v") (simp_all add: deregistered_def)

lemma disconnect_deregistered: "disconnect ws v ac = Inr (deregistered ws v ac)"
  by (simp add: disconnect_Inr deregistered_def)

lemma well_formed_connect:
  assumes "well_formed ac" and "\<forall>u. ws \<notin> set (connections_of ac u)"
    and "connect a ws v ac = Inr ac'"
  shows "well_formed ac'"
proof (cases a)
  case None
  with assms(3) have ac': "ac' = ac(v \<mapsto> connections_of ac v @ [ws])"
    by (simp add: connect_Inr)
  show ?thesis
    unfolding well_formed_def ac' connections_of_upd
    using assms(1,2) by (auto simp: well_formed_def)
next
  case (Some e)
  with assms(3) show ?thesis by (simp add: connect_Inl)
qed

lemma well_formed_deregistered:
  assumes "well_formed ac"
  shows "well_formed (deregistered ws v ac)"
  unfolding well_formed_def connections_of_deregistered
proof (intro allI conjI impI)
  fix u
  show "deregistered ws v ac u \<noteq> Some []"
    using assms by (simp add: well_formed_def deregistered_no_empty)
  show "distinct (if u = v then remove1 ws (connections_of ac v) else connections_of ac u)"
    using assms by (simp add: well_formed_def)
  fix w assume "u \<noteq> w"
  with assms have apart: "set (connections_of ac u) \<inter> set (connections_of ac w) = {}"
    by (simp add: well_formed_def)
  have sub: "\<And>x. set (if x = v then remove1 ws (connections_of ac v) else connections_of ac x)
        \<subseteq> set (connections_of ac x)"
    using set_remove1_subset [of ws "connections_of ac v"] by simp
  from apart sub [of u] sub [of w]
  show "set (if u = v then remove1 ws (connections_of ac v) else connections_of ac u)
        \<inter> set (if w = v then remove1 ws (connections_of ac v) else connections_of ac w) = {}"
    by blast
qed

lemma well_formed_disconnect:
  "well_formed ac \<Longrightarrow> disconnect ws v ac = Inr ac' \<Longrightarrow> well_formed ac'"
  by (auto simp: disconnect_deregistered well_formed_deregistered)

lemma well_formed_foldl:
  assumes "well_formed ac" and "\<forall>u. set (connections_of ac u) \<subseteq> set seen"
    and "fresh_sockets seen calls"
  shows "well_formed (foldl apply_call ac calls)"
  using assms
proof (induction calls arbitrary: ac seen)
  case Nil
  then show ?case by simp
next
  case (Cons c calls)
  show ?case
  proof (cases c)
    case (Connect a ws v)
    with Cons.prems have new: "ws \<notin> set seen" and rest: "fresh_sockets (ws # seen) calls"
      by simp_all
    from new Cons.prems(2) have unreg: "\<forall>u. ws \<notin> set (connections_of ac u)" by blast
    show ?thesis
    proof (cases a)
      case None
      have step: "apply_call ac c = ac(v \<mapsto> connections_of ac v @ [ws])"
        by (simp add: Connect None connect_Inr)
      have wf: "well_formed (apply_call ac c)"
        unfolding step
        by (rule well_formed_connect [OF Cons.prems(1) unreg]) (rule connect_Inr)
      have sub: "\<forall>u. set (connections_of (apply_call ac c) u) \<subseteq> set (ws # seen)"
        unfolding step connections_of_upd using Cons.prems(2) by auto
      from Cons.IH [OF wf sub rest] show ?thesis by simp
    next
      case (Some e)
      have step: "apply_call ac c = ac"
        by (simp add: Connect Some connect_Inl)
      have sub: "\<forall>u. set (connections_of ac u) \<subseteq> set (ws # seen)"
        using Cons.prems(2) by auto
      from Cons.IH [OF Cons.prems(1) sub rest] show ?thesis by (simp add: step)
    qed
  next
    case (Disconnect ws v)
    have step: "apply_call ac c = deregistered ws v ac"
      by (simp add: Disconnect disconnect_deregistered)
    have wf: "well_formed (apply_call ac c)"
      unfolding step by (rule well_formed_deregistered [OF Cons.prems(1)])
    have sub: "\<forall>u. set (connections_of (apply_call ac c) u) \<subseteq> set seen"
      unfolding step connections_of_deregistered
      using Cons.prems(2) set_remove1_subset [of ws "connections_of ac v"] by auto
    from Cons.prems(3) have rest: "fresh_sockets seen calls" by (simp add: Disconnect)
    from Cons.IH [OF wf sub rest] show ?thesis by simp
  qed
qed

lemma well_formed_run_calls: "fresh_sockets [] calls \<Longrightarrow> well_formed (run_calls calls)"
  unfolding run_calls_def
  by (rule well_formed_foldl [OF well_formed_empty]) (simp_all add: connections_of_def)

text \<open>
  C3. After any sequence of \<open>connect\<close> and \<open>disconnect\<close> calls from the empty
  dictionary, a vehicle id is a key of the dictionary exactly when its list of connections
  is not empty; and when the list holds one last connection, disconnecting it removes the
  key itself (\<^verbatim>\<open>vehicle_id in active_connections\<close> is false afterwards).
\<close>

theorem key_present_iff_nonempty:
  "(run_calls calls v \<noteq> None) = (connections_of (run_calls calls) v \<noteq> [])
   \<and> (connections_of (run_calls calls) v = [c] \<longrightarrow>
        (\<exists>ac'. disconnect c v (run_calls calls) = Inr ac' \<and> ac' v = None))"
proof -
  have ne: "run_calls calls v \<noteq> Some []"
    using no_empty_entry_run_calls [of calls] by (simp add: no_empty_entry_def)
  have key: "(run_calls calls v \<noteq> None) = (connections_of (run_calls calls) v \<noteq> [])"
    using ne by (cases "run_calls calls v") (simp_all add: connections_of_def)
  have last: "connections_of (run_calls calls) v = [c] \<longrightarrow>
        (\<exists>ac'. disconnect c v (run_calls calls) = Inr ac' \<and> ac' v = None)"
    by (cases "run_calls calls v") (simp_all add: connections_of_def disconnect_Inr)
  from key last show ?thesis by blast
qed

theorem key_present_iff_nonempty_witness:
  "run_calls [Connect None 7 1, Connect None 8 1, Disconnect 7 1] 1 \<noteq> None
   \<and> connections_of (run_calls [Connect None 7 1, Connect None 8 1, Disconnect 7 1]) 1 = [8]
   \<and> (\<exists>ac'. disconnect 8 1 (run_calls [Connect None 7 1, Connect None 8 1, Disconnect 7 1]) = Inr ac'
          \<and> ac' 1 = None)"
proof -
  have c: "connections_of (run_calls [Connect None 7 1, Connect None 8 1, Disconnect 7 1]) 1 = [8]"
    by (simp add: run_calls_def connect_Inr disconnect_Inr connections_of_def)
  show ?thesis
    using c key_present_iff_nonempty [of "[Connect None 7 1, Connect None 8 1, Disconnect 7 1]" 1 8]
    by simp
qed

section \<open>Registering a connection\<close>

text \<open>
  C8. Once the handshake has been accepted, \<open>connect\<close> returns normally for every
  dictionary, vehicle id and socket: there is no capacity check. The socket is appended to
  the vehicle's list, which is created when the key was absent, and the length of that
  list grows by exactly one.
\<close>

theorem connect_adds_one:
  "\<exists>ac'. connect None ws v ac = Inr ac'
     \<and> connections_of ac' v = connections_of ac v @ [ws]
     \<and> length (connections_of ac' v) = length (connections_of ac v) + 1
     \<and> ac' v \<noteq> None"
  by (simp add: connect_Inr connections_of_def)

section \<open>Broadcasting\<close>

text \<open>
  When no handler touches the manager during the sends: let a vehicle's list hold the
  connections \<open>cs\<close>, let \<open>send_text\<close> raise on one of them, \<open>d\<close>, and on no other. Then
  \<open>broadcast\<close> returns normally, it has called \<open>send_text\<close> once for every entry of the
  list, in order, and every entry other than \<open>d\<close> has received the message.
\<close>

lemma broadcast_quiet_isolates_failure:
  assumes "active_connections s v = Some cs"
    and "d \<in> set cs"
    and "send_raises env d = Some e"
    and "\<forall>c\<in>set cs. c \<noteq> d \<longrightarrow> send_raises env c = None"
  shows "fst (broadcast env v m s) = Inr ()
     \<and> sent (snd (broadcast env v m s)) = sent s @ map (\<lambda>c. (c, m, c \<noteq> d)) cs
     \<and> (\<forall>c\<in>set cs. c \<noteq> d \<longrightarrow> (c, m, True) \<in> set (sent (snd (broadcast env v m s))))"
proof -
  have same: "map (\<lambda>c. (c, m, send_raises env c = None)) cs = map (\<lambda>c. (c, m, c \<noteq> d)) cs"
    using assms(3,4) by (intro map_cong) auto
  have cs: "connections_of (active_connections s) v = cs"
    using assms(1) by (simp add: connections_of_def)
  have log: "sent (snd (broadcast env v m s)) = sent s @ map (\<lambda>c. (c, m, c \<noteq> d)) cs"
    by (simp add: broadcast_eq cs same)
  have ok: "fst (broadcast env v m s) = Inr ()"
    by (simp add: broadcast_eq)
  have others: "\<forall>c\<in>set cs. c \<noteq> d \<longrightarrow> (c, m, True) \<in> set (sent (snd (broadcast env v m s)))"
    unfolding log by auto
  from ok log others show ?thesis by blast
qed

text \<open>
  C4. The claim: when the send to one connection of a vehicle's list fails during a
  broadcast, the failure is caught, nothing is raised to the caller, and every other
  connection of the list still receives the message. The code catches the failure and
  returns normally, but it does not deliver to every other connection. Vehicle 1 has
  the connections 0, 1 and 2; the peer of 0 is gone, so the send to 0 raises, and while
  that send is pending the handler of 0 leaves its loop and calls
  \<^verbatim>\<open>manager.disconnect\<close>. The list under iteration is now \<^verbatim>\<open>[1, 2]\<close> and the iterator's
  index is 1: the loop goes on with connection 2 and ends. Connection 1, registered
  before, during and after the broadcast and with a working send, is sent nothing.
\<close>

theorem broadcast_skips_live_connection:
  "fst (broadcast_live (example_env [0]) 1 ''m'' [[Disconnect 0 1]]
          (idle\<lparr>active_connections := [1 \<mapsto> [0, 1, 2]]\<rparr>)) = Inr ()
   \<and> sent (snd (broadcast_live (example_env [0]) 1 ''m'' [[Disconnect 0 1]]
          (idle\<lparr>active_connections := [1 \<mapsto> [0, 1, 2]]\<rparr>)))
       = [(0, ''m'', False), (2, ''m'', True)]
   \<and> active_connections (snd (broadcast_live (example_env [0]) 1 ''m'' [[Disconnect 0 1]]
          (idle\<lparr>active_connections := [1 \<mapsto> [0, 1, 2]]\<rparr>))) 1 = Some [1, 2]"
  by (simp add: broadcast_live_def dict_getitem_def iterated_def connections_of_def send_text_def
        disconnect_Inr example_env_def idle_def)

text \<open>
  The dictionary after a broadcast whose only recipient is dead: the send was attempted
  and raised, and the dead socket is still in the vehicle's list.
\<close>

theorem failed_send_stays_registered_counterexample:
  "sent (snd (broadcast (example_env [0]) 1 ''m'' (idle\<lparr>active_connections := [1 \<mapsto> [0]]\<rparr>)))
     = [(0, ''m'', False)]
   \<and> active_connections (snd (broadcast (example_env [0]) 1 ''m'' (idle\<lparr>active_connections := [1 \<mapsto> [0]]\<rparr>))) 1
     = Some [0]"
  by (simp add: broadcast_def broadcast_loop.simps dict_getitem_def send_text_def example_env_def idle_def)

text \<open>
  C2, amended. \<open>broadcast\<close> never changes the dictionary. After a broadcast in which the
  send to a connection \<open>c\<close> of the vehicle's list has raised, the failed attempt is on
  record, the dictionary is the one before the broadcast, and \<open>c\<close> is still in the
  vehicle's list. Only \<open>disconnect\<close> removes a connection.
\<close>

theorem broadcast_keeps_registry:
  assumes "c \<in> set (connections_of (active_connections s) v)"
    and "send_raises env c = Some e"
  shows "(c, m, False) \<in> set (sent (snd (broadcast env v m s)))
     \<and> active_connections (snd (broadcast env v m s)) = active_connections s
     \<and> c \<in> set (connections_of (active_connections (snd (broadcast env v m s))) v)"
  using assms by (auto simp: broadcast_eq)

theorem broadcast_keeps_registry_witness:
  "(0, ''m'', False) \<in> set (sent (snd (broadcast (example_env [0]) 1 ''m'' (idle\<lparr>active_connections := [1 \<mapsto> [0, 3]]\<rparr>))))
   \<and> connections_of (active_connections (snd (broadcast (example_env [0]) 1 ''m'' (idle\<lparr>active_connections := [1 \<mapsto> [0, 3]]\<rparr>)))) 1
       = [0, 3]"
  using broadcast_keeps_registry
    [of 0 "idle\<lparr>active_connections := [1 \<mapsto> [0, 3]]\<rparr>" 1 "example_env [0]" RuntimeError "''m''"]
  by (simp add: example_env_def idle_def connections_of_def)

section \<open>Leaving the receive loop\<close>

text \<open>
  C7. If among the events a handler receives there is one that ends the loop (the peer
  closes, a read fails, or any other exception is raised inside the loop), the handler
  returns, and the dictionary it leaves is the one \<open>disconnect\<close> yields for its socket
  and vehicle id: both \<^verbatim>\<open>except\<close> clauses deregister, whatever the exception. A socket
  that was in the vehicle's list at most once is then in it no more; in particular a
  handler started by \<open>websocket_location\<close> for a socket not yet in the list leaves no
  entry for it behind.
\<close>

theorem loop_exit_deregisters:
  assumes "\<exists>ev\<in>set evs. ends_loop env ev"
  shows "fst (receive_loop env ws v evs s) = Returned
    \<and> disconnect ws v (active_connections s) = Inr (active_connections (snd (receive_loop env ws v evs s)))
    \<and> (count_list (connections_of (active_connections s) v) ws \<le> 1 \<longrightarrow>
         ws \<notin> set (connections_of (active_connections (snd (receive_loop env ws v evs s))) v))
    \<and> (ws \<notin> set (connections_of (active_connections s) v) \<longrightarrow>
         fst (websocket_location env None ws v evs s) = Returned
         \<and> ws \<notin> set (connections_of (active_connections (snd (websocket_location env None ws v evs s))) v))"
proof -
  note ex = receive_loop_exit [OF assms]
  have a: "fst (receive_loop env ws v evs s) = Returned" using ex by simp
  have b: "disconnect ws v (active_connections s) = Inr (active_connections (snd (receive_loop env ws v evs s)))"
    using ex [of ws v s] by (simp add: disconnect_Inr deregistered_def)
  have c: "count_list (connections_of (active_connections s) v) ws \<le> 1 \<longrightarrow>
         ws \<notin> set (connections_of (active_connections (snd (receive_loop env ws v evs s))) v)"
    using ex [of ws v s] by (simp add: deregistered_absent)
  have d: "ws \<notin> set (connections_of (active_connections s) v) \<longrightarrow>
         fst (websocket_location env None ws v evs s) = Returned
         \<and> ws \<notin> set (connections_of (active_connections (snd (websocket_location env None ws v evs s))) v)"
  proof
    assume fresh: "ws \<notin> set (connections_of (active_connections s) v)"
    let ?ac = "(active_connections s)(v \<mapsto> connections_of (active_connections s) v @ [ws])"
    have once: "count_list (connections_of ?ac v) ws \<le> 1"
      using fresh by (simp add: connections_of_def count_list_0_iff)
    have run: "websocket_location env None ws v evs s = receive_loop env ws v evs (s\<lparr>active_connections := ?ac\<rparr>)"
      by (simp add: websocket_location_def connect_Inr)
    show "fst (websocket_location env None ws v evs s) = Returned
         \<and> ws \<notin> set (connections_of (active_connections (snd (websocket_location env None ws v evs s))) v)"
      unfolding run using ex [of ws v "s\<lparr>active_connections := ?ac\<rparr>"] deregistered_absent [OF once]
      by simp
  qed
  from a b c d show ?thesis by blast
qed


theorem loop_exit_deregisters_witness:
  "fst (receive_loop (example_env []) 0 1 [Text position_text, PeerClose]
          (idle\<lparr>active_connections := [1 \<mapsto> [0, 5]]\<rparr>)) = Returned
   \<and> disconnect 0 1 [1 \<mapsto> [0, 5]]
       = Inr (active_connections (snd (receive_loop (example_env []) 0 1 [Text position_text, PeerClose]
                (idle\<lparr>active_connections := [1 \<mapsto> [0, 5]]\<rparr>))))
   \<and> 0 \<notin> set (connections_of (active_connections (snd (receive_loop (example_env []) 0 1
                [Text position_text, PeerClose] (idle\<lparr>active_connections := [1 \<mapsto> [0, 5]]\<rparr>)))) 1)
   \<and> fst (websocket_location (example_env []) None 0 1 [Text position_text, PeerClose]
          (idle\<lparr>active_connections := [1 \<mapsto> [5]]\<rparr>)) = Returned
   \<and> 0 \<notin> set (connections_of (active_connections (snd (websocket_location (example_env []) None 0 1
                [Text position_text, PeerClose] (idle\<lparr>active_connections := [1 \<mapsto> [5]]\<rparr>)))) 1)"
proof -
  have h: "\<exists>ev\<in>set [Text position_text, PeerClose]. ends_loop (example_env []) ev"
    by (simp add: ends_loop_def)
  show ?thesis
    using loop_exit_deregisters [OF h, of 0 1 "idle\<lparr>active_connections := [1 \<mapsto> [0, 5]]\<rparr>"]
      loop_exit_deregisters [OF h, of 0 1 "idle\<lparr>active_connections := [1 \<mapsto> [5]]\<rparr>"]
    by (simp add: idle_def connections_of_def)
qed

section \<open>A message that parses\<close>

text \<open>
  When no handler touches the manager during the sends and the text received on a
  connection under vehicle id \<open>v\<close> parses, the handler serialises the parsed value once
  and broadcasts that one string: \<open>send_text\<close> is called with it for every connection in
  \<open>v\<close>'s list, in order, the sender included when it is in the list, and every connection
  whose send does not raise receives it; then the loop goes on with the next event. A
  broadcast for a vehicle id without connections changes nothing and returns normally.
\<close>

lemma receive_loop_quiet_reaches_all:
  assumes "json_loads env data = Some location"
  shows "receive_loop env ws v (Text data # evs) s =
           receive_loop env ws v evs
             (s\<lparr>vehicle_locations := (vehicle_locations s)(v \<mapsto> location),
                sent := sent s @ map (\<lambda>c. (c, json_dumps env location, send_raises env c = None))
                                    (connections_of (active_connections s) v)\<rparr>)
    \<and> (\<forall>c\<in>set (connections_of (active_connections s) v). send_raises env c = None \<longrightarrow>
          (c, json_dumps env location, True) \<in> set (sent (snd (receive_loop env ws v [Text data] s))))
    \<and> (connections_of (active_connections s) v = [] \<longrightarrow>
          broadcast env v (json_dumps env location) s = (Inr (), s))"
proof -
  note step = receive_loop_Text_Some [OF assms]
  have a: "receive_loop env ws v (Text data # evs) s =
           receive_loop env ws v evs
             (s\<lparr>vehicle_locations := (vehicle_locations s)(v \<mapsto> location),
                sent := sent s @ map (\<lambda>c. (c, json_dumps env location, send_raises env c = None))
                                    (connections_of (active_connections s) v)\<rparr>)"
    by (rule step)
  have b: "\<forall>c\<in>set (connections_of (active_connections s) v). send_raises env c = None \<longrightarrow>
          (c, json_dumps env location, True) \<in> set (sent (snd (receive_loop env ws v [Text data] s)))"
    unfolding step [of ws v "[]" s] by auto
  have c: "connections_of (active_connections s) v = [] \<longrightarrow>
          broadcast env v (json_dumps env location) s = (Inr (), s)"
    by (simp add: broadcast_eq)
  from a b c show ?thesis by blast
qed

text \<open>
  C5. The claim: when an inbound text parses, every connection in the vehicle's list, the
  sender included, receives the payload, serialised once. The handler does parse, cache
  and serialise once, and it calls \<open>broadcast\<close> with that string, but the broadcast does
  not reach every connection of the list. Connection 2 of vehicle 1 sends the position;
  the list is \<^verbatim>\<open>[0, 1, 2]\<close>, the peer of 0 is gone, and its handler deregisters 0 while the
  send to 0 is pending. The payload goes to 0 (the send raises) and to 2; connection 1,
  in the list throughout, receives nothing.
\<close>

theorem handler_broadcast_skips_live_connection:
  "fst (receive_loop_live (example_env [0]) 2 1 [(Text position_text, [[Disconnect 0 1]])]
          (idle\<lparr>active_connections := [1 \<mapsto> [0, 1, 2]]\<rparr>)) = Receiving
   \<and> sent (snd (receive_loop_live (example_env [0]) 2 1 [(Text position_text, [[Disconnect 0 1]])]
          (idle\<lparr>active_connections := [1 \<mapsto> [0, 1, 2]]\<rparr>)))
       = [(0, position_dump, False), (2, position_dump, True)]
   \<and> active_connections (snd (receive_loop_live (example_env [0]) 2 1 [(Text position_text, [[Disconnect 0 1]])]
          (idle\<lparr>active_connections := [1 \<mapsto> [0, 1, 2]]\<rparr>))) 1 = Some [1, 2]"
  by (simp add: receive_loop_live.simps(2) receive_text_def broadcast_live_def dict_getitem_def
        iterated_def connections_of_def send_text_def disconnect_Inr idle_def example_env_def
        position_def position_dump_def)

text \<open>
  C10. When the text parses, \<open>vehicle_locations\<close> holds the parsed value under \<open>v\<close>
  in the state that \<open>broadcast\<close> is called on, and it still holds it after the broadcast,
  whatever the sends do (also when each of them raises). When the text does not parse,
  \<open>vehicle_locations\<close> is the same after the handler's step as before, for every key.
\<close>

theorem cache_set_before_broadcast:
  "(json_loads env data = Some location \<longrightarrow>
      receive_loop env ws v (Text data # evs) s =
        (case broadcast env v (json_dumps env location)
                (s\<lparr>vehicle_locations := (vehicle_locations s)(v \<mapsto> location)\<rparr>) of
           (r, s') \<Rightarrow> receive_loop env ws v evs s')
      \<and> vehicle_locations (snd (broadcast env v (json_dumps env location)
                (s\<lparr>vehicle_locations := (vehicle_locations s)(v \<mapsto> location)\<rparr>)))
          = (vehicle_locations s)(v \<mapsto> location)
      \<and> vehicle_locations (snd (receive_loop env ws v [Text data] s))
          = (vehicle_locations s)(v \<mapsto> location))
   \<and> (json_loads env data = None \<longrightarrow>
        vehicle_locations (snd (receive_loop env ws v (Text data # evs) s)) = vehicle_locations s)"
proof -
  have ok: "json_loads env data = Some location \<longrightarrow>
      receive_loop env ws v (Text data # evs) s =
        (case broadcast env v (json_dumps env location)
                (s\<lparr>vehicle_locations := (vehicle_locations s)(v \<mapsto> location)\<rparr>) of
           (r, s') \<Rightarrow> receive_loop env ws v evs s')
      \<and> vehicle_locations (snd (broadcast env v (json_dumps env location)
                (s\<lparr>vehicle_locations := (vehicle_locations s)(v \<mapsto> location)\<rparr>)))
          = (vehicle_locations s)(v \<mapsto> location)
      \<and> vehicle_locations (snd (receive_loop env ws v [Text data] s))
          = (vehicle_locations s)(v \<mapsto> location)"
    by (simp add: receive_loop.simps(2) receive_text_def broadcast_eq)
  have bad: "json_loads env data = None \<longrightarrow>
        vehicle_locations (snd (receive_loop env ws v (Text data # evs) s)) = vehicle_locations s"
    by (simp add: receive_loop_Text_None except_clause_eq)
  from ok bad show ?thesis by blast
qed

theorem cache_set_before_broadcast_witness:
  "vehicle_locations (snd (receive_loop (example_env [0, 1]) 0 1 [Text position_text]
        (idle\<lparr>active_connections := [1 \<mapsto> [0, 1]]\<rparr>))) 1 = Some position
   \<and> sent (snd (receive_loop (example_env [0, 1]) 0 1 [Text position_text]
        (idle\<lparr>active_connections := [1 \<mapsto> [0, 1]]\<rparr>)))
       = [(0, position_dump, False), (1, position_dump, False)]
   \<and> vehicle_locations (snd (receive_loop (example_env [0, 1]) 0 1 [Text ''not-json'', Text position_text]
        (idle\<lparr>active_connections := [1 \<mapsto> [0, 1]], vehicle_locations := [1 \<mapsto> []]\<rparr>))) 1 = Some []"
proof -
  have h: "json_loads (example_env [0, 1]) position_text = Some position"
    by (simp add: example_env_def)
  have n: "json_loads (example_env [0, 1]) ''not-json'' = None"
    by (simp add: example_env_def position_text_def)
  have d: "json_dumps (example_env [0, 1]) position = position_dump"
    by (simp add: example_env_def position_def position_dump_def)
  note t = cache_set_before_broadcast [of "example_env [0, 1]" position_text position 0 1 "[]"
         "idle\<lparr>active_connections := [1 \<mapsto> [0, 1]]\<rparr>"]
  note u = cache_set_before_broadcast [of "example_env [0, 1]" "''not-json''" position 0 1 "[Text position_text]"
         "idle\<lparr>active_connections := [1 \<mapsto> [0, 1]], vehicle_locations := [1 \<mapsto> []]\<rparr>"]
  have cache: "vehicle_locations (snd (receive_loop (example_env [0, 1]) 0 1 [Text position_text]
        (idle\<lparr>active_connections := [1 \<mapsto> [0, 1]]\<rparr>))) 1 = Some position"
  proof -
    from t h have "vehicle_locations (snd (receive_loop (example_env [0, 1]) 0 1 [Text position_text]
        (idle\<lparr>active_connections := [1 \<mapsto> [0, 1]]\<rparr>)))
      = (vehicle_locations (idle\<lparr>active_connections := [1 \<mapsto> [0, 1]]\<rparr>))(1 \<mapsto> position)"
      by blast
    then show ?thesis by simp
  qed
  have log: "sent (snd (receive_loop (example_env [0, 1]) 0 1 [Text position_text]
        (idle\<lparr>active_connections := [1 \<mapsto> [0, 1]]\<rparr>)))
       = [(0, position_dump, False), (1, position_dump, False)]"
    unfolding receive_loop_Text_Some [OF h] d
    by (simp add: connections_of_def idle_def) (simp add: example_env_def)
  have kept: "vehicle_locations (snd (receive_loop (example_env [0, 1]) 0 1 [Text ''not-json'', Text position_text]
        (idle\<lparr>active_connections := [1 \<mapsto> [0, 1]], vehicle_locations := [1 \<mapsto> []]\<rparr>))) 1 = Some []"
  proof -
    from u n have "vehicle_locations (snd (receive_loop (example_env [0, 1]) 0 1 [Text ''not-json'', Text position_text]
        (idle\<lparr>active_connections := [1 \<mapsto> [0, 1]], vehicle_locations := [1 \<mapsto> []]\<rparr>)))
      = vehicle_locations (idle\<lparr>active_connections := [1 \<mapsto> [0, 1]], vehicle_locations := [1 \<mapsto> []]\<rparr>)"
      by blast
    then show ?thesis by simp
  qed
  from cache log kept show ?thesis by blast
qed

section \<open>A message that does not parse\<close>

text \<open>
  A connection that registers under vehicle 1 on the idle server, sends \<^verbatim>\<open>not-json\<close> and
  then a valid position: the handler has returned after the first message, the key 1 is
  gone from the dictionary, and nothing was sent, the valid position included.
\<close>

theorem unparsable_text_ends_handler_counterexample:
  "fst (websocket_location (example_env []) None 0 1 [Text ''not-json'', Text position_text] idle) = Returned
   \<and> active_connections (snd (websocket_location (example_env []) None 0 1
         [Text ''not-json'', Text position_text] idle)) 1 = None
   \<and> sent (snd (websocket_location (example_env []) None 0 1
         [Text ''not-json'', Text position_text] idle)) = []"
proof -
  have n: "json_loads (example_env []) ''not-json'' = None"
    by (simp add: example_env_def position_text_def)
  show ?thesis
    unfolding websocket_location_def connect_Inr
    by (simp add: receive_loop_Text_None [OF n] except_clause_eq connections_of_def idle_def)
qed

text \<open>
  C1, amended. When the text received does not parse, the update is discarded: nothing is
  broadcast and the cache is not written. The exception is caught by the handler's
  \<^verbatim>\<open>except Exception\<close> clause, which deregisters the connection, and the handler
  returns: the state afterwards is the state before with the dictionary that
  \<open>disconnect\<close> yields, and the events that follow are not read.
\<close>

theorem unparsable_text_ends_handler:
  assumes "json_loads env data = None"
  shows "\<exists>ac'. disconnect ws v (active_connections s) = Inr ac'
           \<and> receive_loop env ws v (Text data # evs) s = (Returned, s\<lparr>active_connections := ac'\<rparr>)"
  by (simp add: receive_loop_Text_None [OF assms] except_clause_eq disconnect_Inr)

theorem unparsable_text_ends_handler_witness:
  "receive_loop (example_env []) 0 1 [Text ''not-json'', Text position_text]
      (idle\<lparr>active_connections := [1 \<mapsto> [0, 1]]\<rparr>)
     = (Returned, idle\<lparr>active_connections := [1 \<mapsto> [1]]\<rparr>)"
proof -
  have n: "json_loads (example_env []) ''not-json'' = None"
    by (simp add: example_env_def position_text_def)
  obtain ac' where d: "disconnect 0 1 (active_connections (idle\<lparr>active_connections := [1 \<mapsto> [0, 1]]\<rparr>)) = Inr ac'"
    and r: "receive_loop (example_env []) 0 1 [Text ''not-json'', Text position_text]
              (idle\<lparr>active_connections := [1 \<mapsto> [0, 1]]\<rparr>)
            = (Returned, idle\<lparr>active_connections := [1 \<mapsto> [0, 1]]\<rparr>\<lparr>active_connections := ac'\<rparr>)"
    using unparsable_text_ends_handler [OF n, of 0 1 "idle\<lparr>active_connections := [1 \<mapsto> [0, 1]]\<rparr>" "[Text position_text]"]
    by blast
  from d have "ac' = [1 \<mapsto> [1]]"
    by (simp add: disconnect_Inr)
  with r show ?thesis by simp
qed

section \<open>Deregistering twice\<close>

text \<open>
  C6. In every dictionary the server can be in, for every vehicle id and socket:
  \<open>disconnect\<close> returns normally, and calling it a second time with the same socket and
  vehicle id returns the dictionary the first call produced; and when the socket is not
  in the vehicle's list (the vehicle id may be absent from the dictionary), \<open>disconnect\<close>
  returns the dictionary unchanged. It never raises.
\<close>

theorem disconnect_idempotent:
  assumes "well_formed ac"
  shows "(\<exists>ac'. disconnect ws v ac = Inr ac' \<and> disconnect ws v ac' = Inr ac')
     \<and> (ws \<notin> set (connections_of ac v) \<longrightarrow> disconnect ws v ac = Inr ac)"
proof -
  from assms have ne: "ac v \<noteq> Some []" and di: "distinct (connections_of ac v)"
    by (simp_all add: well_formed_def)
  have noop: "ws \<notin> set (connections_of ac v) \<longrightarrow> disconnect ws v ac = Inr ac"
    using ne by (cases "ac v") (auto simp: disconnect_Inr connections_of_def remove1_idem)
  have twice: "\<exists>ac'. disconnect ws v ac = Inr ac' \<and> disconnect ws v ac' = Inr ac'"
  proof (cases "ac v")
    case None
    then show ?thesis by (simp add: disconnect_Inr)
  next
    case (Some xs)
    with di have "ws \<notin> set (remove1 ws xs)"
      by (simp add: connections_of_def)
    then have "remove1 ws (remove1 ws xs) = remove1 ws xs"
      by (rule remove1_idem)
    with Some show ?thesis by (simp add: disconnect_Inr)
  qed
  from twice noop show ?thesis by blast
qed

theorem disconnect_idempotent_witness:
  "well_formed (run_calls [Connect None 0 1, Connect None 4 1])
   \<and> run_calls [Connect None 0 1, Connect None 4 1] = [1 \<mapsto> [0, 4]]
   \<and> disconnect 0 1 [1 \<mapsto> [0, 4]] = Inr [1 \<mapsto> [4]]
   \<and> disconnect 0 1 [1 \<mapsto> [4]] = Inr [1 \<mapsto> [4]]
   \<and> disconnect 0 2 [1 \<mapsto> [0, 4]] = Inr [1 \<mapsto> [0, 4]]"
proof -
  have run: "run_calls [Connect None 0 1, Connect None 4 1] = [1 \<mapsto> [0, 4]]"
    by (simp add: run_calls_def connect_Inr connections_of_def)
  have wf: "well_formed (run_calls [Connect None 0 1, Connect None 4 1])"
    by (rule well_formed_run_calls) simp
  then have wf': "well_formed [1 \<mapsto> [0, 4]]"
    by (simp add: run)
  have first: "disconnect 0 1 [1 \<mapsto> [0, 4]] = Inr [1 \<mapsto> [4]]"
    by (simp add: disconnect_Inr)
  have absent: "0 \<notin> set (connections_of [1 \<mapsto> [0, 4]] 2)"
    by (simp add: connections_of_def)
  from disconnect_idempotent [OF wf', of 0 1] first
  have second: "disconnect 0 1 [1 \<mapsto> [4]] = Inr [1 \<mapsto> [4]]"
    by auto
  from disconnect_idempotent [OF wf', of 0 2] absent
  have third: "disconnect 0 2 [1 \<mapsto> [0, 4]] = Inr [1 \<mapsto> [0, 4]]"
    by blast
  from wf run first second third show ?thesis by blast
qed

section \<open>Vehicles apart\<close>

text \<open>
  C9. For distinct vehicle ids \<open>v\<close> and \<open>w\<close>: \<open>connect\<close>, \<open>disconnect\<close> and
  \<open>broadcast\<close> for \<open>v\<close> leave the dictionary's entry for \<open>w\<close> as it is; a broadcast
  for \<open>v\<close> calls \<open>send_text\<close> on no socket outside \<open>v\<close>'s list; and in every dictionary
  the server can be in, a broadcast for \<open>v\<close> sends nothing to any connection registered
  under \<open>w\<close>.
\<close>

theorem vehicles_partitioned:
  assumes "v \<noteq> w"
  shows "(\<forall>ac'. connect a ws v ac = Inr ac' \<longrightarrow> ac' w = ac w)
   \<and> (\<forall>ac'. disconnect ws v ac = Inr ac' \<longrightarrow> ac' w = ac w)
   \<and> active_connections (snd (broadcast env v m s)) w = active_connections s w
   \<and> (\<forall>c. c \<notin> set (connections_of (active_connections s) v) \<longrightarrow>
          c \<notin> fst ` set (drop (length (sent s)) (sent (snd (broadcast env v m s)))))
   \<and> (well_formed (active_connections s) \<longrightarrow>
        (\<forall>c\<in>set (connections_of (active_connections s) w).
           c \<notin> fst ` set (drop (length (sent s)) (sent (snd (broadcast env v m s))))))"
proof -
  have a: "\<forall>ac'. connect a ws v ac = Inr ac' \<longrightarrow> ac' w = ac w"
    using assms by (cases a) (auto simp: connect_Inr connect_Inl)
  have b: "\<forall>ac'. disconnect ws v ac = Inr ac' \<longrightarrow> ac' w = ac w"
    using assms by (auto simp: disconnect_Inr split: option.splits)
  have c: "active_connections (snd (broadcast env v m s)) w = active_connections s w"
    by (simp add: broadcast_eq)
  have d: "\<forall>c. c \<notin> set (connections_of (active_connections s) v) \<longrightarrow>
          c \<notin> fst ` set (drop (length (sent s)) (sent (snd (broadcast env v m s))))"
    by (auto simp: broadcast_eq)
  have e: "well_formed (active_connections s) \<longrightarrow>
        (\<forall>c\<in>set (connections_of (active_connections s) w).
           c \<notin> fst ` set (drop (length (sent s)) (sent (snd (broadcast env v m s)))))"
  proof (intro impI ballI)
    fix c
    assume wf: "well_formed (active_connections s)"
      and cw: "c \<in> set (connections_of (active_connections s) w)"
    from wf assms have "set (connections_of (active_connections s) v)
        \<inter> set (connections_of (active_connections s) w) = {}"
      by (simp add: well_formed_def)
    with cw have "c \<notin> set (connections_of (active_connections s) v)" by blast
    with d show "c \<notin> fst ` set (drop (length (sent s)) (sent (snd (broadcast env v m s))))"
      by blast
  qed
  from a b c d e show ?thesis by blast
qed

theorem vehicles_partitioned_witness:
  "well_formed (run_calls [Connect None 0 1, Connect None 3 2])
   \<and> run_calls [Connect None 0 1, Connect None 3 2] = [1 \<mapsto> [0], 2 \<mapsto> [3]]
   \<and> (\<exists>ac'. connect None 9 1 [1 \<mapsto> [0], 2 \<mapsto> [3]] = Inr ac' \<and> ac' 2 = Some [3])
   \<and> (\<exists>ac'. disconnect 0 1 [1 \<mapsto> [0], 2 \<mapsto> [3]] = Inr ac' \<and> ac' 2 = Some [3])
   \<and> active_connections (snd (broadcast (example_env []) 1 ''m''
         (idle\<lparr>active_connections := [1 \<mapsto> [0], 2 \<mapsto> [3]]\<rparr>))) 2 = Some [3]
   \<and> 3 \<notin> fst ` set (drop (length (sent (idle\<lparr>active_connections := [1 \<mapsto> [0], 2 \<mapsto> [3]]\<rparr>)))
          (sent (snd (broadcast (example_env []) 1 ''m'' (idle\<lparr>active_connections := [1 \<mapsto> [0], 2 \<mapsto> [3]]\<rparr>)))))"
proof -
  have ne: "(1::int) \<noteq> 2" by simp
  have run: "run_calls [Connect None 0 1, Connect None 3 2] = [1 \<mapsto> [0], 2 \<mapsto> [3]]"
    by (simp add: run_calls_def connect_Inr connections_of_def)
  have wf: "well_formed (run_calls [Connect None 0 1, Connect None 3 2])"
    by (rule well_formed_run_calls) simp
  then have wf': "well_formed (active_connections (idle\<lparr>active_connections := [1 \<mapsto> [0], 2 \<mapsto> [3]]\<rparr>))"
    by (simp add: run)
  note t = vehicles_partitioned [OF ne, where a = None and ws = 9 and ac = "[1 \<mapsto> [0], 2 \<mapsto> [3]]"
      and env = "example_env []" and m = "''m''" and s = "idle\<lparr>active_connections := [1 \<mapsto> [0], 2 \<mapsto> [3]]\<rparr>"]
  note u = vehicles_partitioned [OF ne, where ws = 0 and ac = "[1 \<mapsto> [0], 2 \<mapsto> [3]]"]
  have c: "\<exists>ac'. connect None 9 1 [1 \<mapsto> [0], 2 \<mapsto> [3]] = Inr ac'"
    by (simp add: connect_Inr)
  have d: "\<exists>ac'. disconnect 0 1 [1 \<mapsto> [0], 2 \<mapsto> [3]] = Inr ac'"
    by (simp add: disconnect_Inr)
  have o: "3 \<in> set (connections_of (active_connections (idle\<lparr>active_connections := [1 \<mapsto> [0], 2 \<mapsto> [3]]\<rparr>)) 2)"
    by (simp add: connections_of_def)
  have k: "active_connections (idle\<lparr>active_connections := [1 \<mapsto> [0], 2 \<mapsto> [3]]\<rparr>) 2 = Some [3]"
    "[1 \<mapsto> [0], 2 \<mapsto> [3::nat]] (2::int) = Some [3]"
    by simp_all
  have first: "\<exists>ac'. connect None 9 1 [1 \<mapsto> [0], 2 \<mapsto> [3]] = Inr ac' \<and> ac' 2 = Some [3]"
    using t c k(2) by metis
  have second: "\<exists>ac'. disconnect 0 1 [1 \<mapsto> [0], 2 \<mapsto> [3]] = Inr ac' \<and> ac' 2 = Some [3]"
    using u d k(2) by metis
  have third: "active_connections (snd (broadcast (example_env []) 1 ''m''
         (idle\<lparr>active_connections := [1 \<mapsto> [0], 2 \<mapsto> [3]]\<rparr>))) 2 = Some [3]"
    using t k(1) by metis
  have fourth: "3 \<notin> fst ` set (drop (length (sent (idle\<lparr>active_connections := [1 \<mapsto> [0], 2 \<mapsto> [3]]\<rparr>)))
          (sent (snd (broadcast (example_env []) 1 ''m'' (idle\<lparr>active_connections := [1 \<mapsto> [0], 2 \<mapsto> [3]]\<rparr>)))))"
    using t wf' o by blast
  from wf run first second third fourth show ?thesis by blast
qed

end
